theory Spec2Isabelle
  imports Main
begin

section \<open>The scan scheduler (class ScanProvider of scanner.js)\<close>

text \<open>
  Time is a number of milliseconds. The analyzer is an external collaborator: every
  function that calls \<^verbatim>\<open>this._analyzer.analyze()\<close> takes the value that call returns as
  an argument, \<open>None\<close> for \<^verbatim>\<open>null\<close>. The field \<open>canvas\<close> of an analysis stands for the
  string that \<^verbatim>\<open>canvas.toDataURL('image/webp', 0.8)\<close> yields for the frame.
\<close>

record analysis =
  result :: string
  canvas :: string

record payload =
  content :: string
  image :: "string option"

type_synonym scan_event = "string \<times> string option"

text \<open>
  The fields of a ScanProvider object. \<open>refractoryTimeout\<close> is the timer whose handle the
  object holds: \<open>Some d\<close> while that timer is pending and due at time \<open>d\<close>, \<open>None\<close> when
  there is none (never set, cleared, or fired). The source clears the old timer before it
  sets a new one, so there is at most one.
\<close>

record scan_provider =
  scanPeriod :: int
  captureImage :: bool
  refractoryPeriod :: nat
  frameCount :: int
  lastResult :: "string option"
  active :: bool
  refractoryTimeout :: "nat option"

text \<open>
  The host around the object: the number of callbacks registered with
  \<^verbatim>\<open>requestAnimationFrame\<close> and not yet run (each is \<^verbatim>\<open>() => this._scan()\<close>), the
  zero-delay timeouts that will emit a scan event, and the scan events emitted so far.
\<close>

record world =
  provider :: scan_provider
  rafPending :: nat
  emitTasks :: "scan_event list"
  emitted :: "scan_event list"

definition ScanProvider_new :: "bool \<Rightarrow> int \<Rightarrow> nat \<Rightarrow> scan_provider" where
  "ScanProvider_new capture period refractory =
     \<lparr>scanPeriod = period, captureImage = capture, refractoryPeriod = refractory,
      frameCount = 0, lastResult = None, active = False, refractoryTimeout = None\<rparr>"

definition world_new :: "scan_provider \<Rightarrow> world" where
  "world_new p = \<lparr>provider = p, rafPending = 0, emitTasks = [], emitted = []\<rparr>"

definition ScanProvider_start :: "world \<Rightarrow> world" where
  "ScanProvider_start w =
     w\<lparr>provider := (provider w)\<lparr>active := True\<rparr>, rafPending := rafPending w + 1\<rparr>"

definition ScanProvider_stop :: "world \<Rightarrow> world" where
  "ScanProvider_stop w = w\<lparr>provider := (provider w)\<lparr>active := False\<rparr>\<rparr>"

text \<open>
  The delay that \<^verbatim>\<open>setTimeout\<close> keeps for a number of milliseconds. The host stores it
  as a signed 32-bit integer: the number is taken modulo \<open>2^32\<close>, and a value from \<open>2^31\<close>
  on is negative there and counts as zero, so that the timer is due at once.
\<close>

definition timer_delay :: "nat \<Rightarrow> nat" where
  "timer_delay ms = (let m = ms mod 2 ^ 32 in if m < 2 ^ 31 then m else 0)"

text \<open>
  \<^verbatim>\<open>_analyze(skipDups)\<close> at time \<open>now\<close>. An empty string is falsy in JavaScript, so an
  analysis with an empty result is dropped by \<^verbatim>\<open>if (!result)\<close>, and an empty data URL
  is not attached by \<^verbatim>\<open>if (image)\<close>.
\<close>

definition analyze' :: "bool \<Rightarrow> nat \<Rightarrow> analysis option \<Rightarrow> scan_provider
    \<Rightarrow> payload option \<times> scan_provider" where
  "analyze' skipDups now a p =
     (case a of
        None \<Rightarrow> (None, p)
      | Some an \<Rightarrow>
          if result an = [] then (None, p)
          else if skipDups \<and> Some (result an) = lastResult p then (None, p)
          else
            let img = (if captureImage p then Some (canvas an) else None) in
            (Some \<lparr>content = result an,
                   image = (case img of None \<Rightarrow> None
                            | Some u \<Rightarrow> if u = [] then None else Some u)\<rparr>,
             p\<lparr>refractoryTimeout := Some (now + timer_delay (refractoryPeriod p)),
               lastResult := Some (result an)\<rparr>))"

text \<open>The manual sample, \<^verbatim>\<open>scan()\<close>: \<^verbatim>\<open>return this._analyze(false)\<close>.\<close>

definition ScanProvider_scan :: "nat \<Rightarrow> analysis option \<Rightarrow> world \<Rightarrow> payload option \<times> world" where
  "ScanProvider_scan now a w =
     (let (r, p) = analyze' False now a (provider w) in (r, w\<lparr>provider := p\<rparr>))"

text \<open>
  One run of the loop body \<^verbatim>\<open>_scan()\<close>: when active it registers the next callback,
  counts the frame, and only when the count equals \<open>scanPeriod\<close> resets it and samples
  with duplicates skipped; a result is handed to a zero-delay timeout that emits it.
\<close>

definition scan' :: "nat \<Rightarrow> analysis option \<Rightarrow> world \<Rightarrow> world" where
  "scan' now a w =
     (if \<not> active (provider w) then w
      else
        let w1 = w\<lparr>rafPending := rafPending w + 1\<rparr>;
            n = frameCount (provider w1) + 1
        in if n \<noteq> scanPeriod (provider w1)
           then w1\<lparr>provider := (provider w1)\<lparr>frameCount := n\<rparr>\<rparr>
           else
             let (r, p) = analyze' True now a ((provider w1)\<lparr>frameCount := 0\<rparr>);
                 w2 = w1\<lparr>provider := p\<rparr>
             in (case r of
                   None \<Rightarrow> w2
                 | Some pl \<Rightarrow> w2\<lparr>emitTasks := emitTasks w2 @ [(content pl, image pl)]\<rparr>))"

subsection \<open>The host's event loop\<close>

text \<open>The refractory timer fires once it is due: its callback clears \<open>lastResult\<close>.\<close>

definition fire_due :: "nat \<Rightarrow> world \<Rightarrow> world" where
  "fire_due now w =
     (case refractoryTimeout (provider w) of
        None \<Rightarrow> w
      | Some d \<Rightarrow>
          if d \<le> now
          then w\<lparr>provider := (provider w)\<lparr>lastResult := None, refractoryTimeout := None\<rparr>\<rparr>
          else w)"

text \<open>The zero-delay timeouts run in the order they were set; each emits its event.\<close>

definition deliver :: "world \<Rightarrow> world" where
  "deliver w = w\<lparr>emitted := emitted w @ emitTasks w, emitTasks := []\<rparr>"

text \<open>The browser runs one registered animation-frame callback, if there is one.\<close>

definition run_callback :: "nat \<Rightarrow> analysis option \<Rightarrow> world \<Rightarrow> world" where
  "run_callback now a w =
     (if rafPending w = 0 then w else scan' now a (w\<lparr>rafPending := rafPending w - 1\<rparr>))"

text \<open>
  A tick of the loop at time \<open>t\<close>: the timer that is due fires first, one callback runs,
  and the timeouts it set run afterwards.
\<close>

definition host_tick :: "world \<Rightarrow> nat \<times> analysis option \<Rightarrow> world" where
  "host_tick w ta = deliver (run_callback (fst ta) (snd ta) (fire_due (fst ta) w))"

definition run_ticks :: "world \<Rightarrow> (nat \<times> analysis option) list \<Rightarrow> world" where
  "run_ticks w tas = foldl host_tick w tas"

text \<open>
  An animation frame runs every callback that was registered when the frame began;
  callbacks registered during the frame wait for the next one.
\<close>

definition animation_frame :: "nat \<Rightarrow> analysis option \<Rightarrow> world \<Rightarrow> world" where
  "animation_frame now a w =
     (let w1 = fire_due now w
      in deliver ((run_callback now a ^^ rafPending w1) w1))"

subsection \<open>Inputs of the scenarios\<close>

definition abc :: analysis where
  "abc = \<lparr>result = ''ABC'', canvas = ''data:image/webp;base64,AAAA''\<rparr>"

text \<open>
  Scenario A: a provider with no snapshots, \<open>scanPeriod = 3\<close> and the default refractory
  period of 5000 ms, started.
\<close>

definition scenario_A :: world where
  "scenario_A = ScanProvider_start (world_new (ScanProvider_new False 3 5000))"

definition every_frame :: world where
  "every_frame = ScanProvider_start (world_new (ScanProvider_new False 1 5000))"

definition every_second_frame :: world where
  "every_second_frame = world_new (ScanProvider_new False 2 5000)"

section \<open>The scanner and its activation state machine (class Scanner)\<close>

text \<open>
  The four states of the configuration, and the two intermediate states that the
  state-machine library puts between a source state of the guarded event \<^verbatim>\<open>activate\<close>
  and its outcome: \<^verbatim>\<open>started__activate\<close> and \<^verbatim>\<open>inactive__activate\<close>.
\<close>

datatype fsm_state = Stopped | Started | Active | Inactive | StartedActivate | InactiveActivate

datatype fsm_event = Start | Stop | Activate | Deactivate

datatype visibility = Visible | Hidden

text \<open>The events \<^verbatim>\<open>'active'\<close> and \<^verbatim>\<open>'inactive'\<close> that the scanner emits on itself.\<close>

datatype signal = SigActive | SigInactive

datatype error = VideoNotVideoElement | CameraNotDefined | AcquisitionFailed | InvalidTransition

type_synonym camera = nat

text \<open>
  The JavaScript values that matter to the activate guard, and an object as the function
  that reads a property of it (\<open>JUndefined\<close> for a property the object does not have).
\<close>

datatype jsval = JUndefined | JBool bool | JString string

fun truthy :: "jsval \<Rightarrow> bool" where
  "truthy JUndefined = False"
| "truthy (JBool b) = b"
| "truthy (JString s) = (s \<noteq> [])"

type_synonym jsobject = "string \<Rightarrow> jsval"

text \<open>
  The options given to the constructor; \<open>None\<close> is an option left out. \<open>optVideoTag\<close> is
  the \<^verbatim>\<open>tagName\<close> of \<^verbatim>\<open>opts.video\<close>.
\<close>

record opts =
  optVideoTag :: "string option"
  optBackgroundScan :: "bool option"
  optContinuous :: "bool option"
  optCaptureImage :: "bool option"
  optScanPeriod :: "int option"
  optRefractoryPeriod :: "nat option"

text \<open>
  The scanner: its fields, the state of its machine (\<^verbatim>\<open>this._fsm.current\<close>), its scan
  provider with the host around it, the cameras whose stream is open (started with
  \<^verbatim>\<open>camera.start()\<close> and not stopped since), and the signals emitted so far. The video
  element and its styling are left out.
\<close>

record scanner =
  backgroundScan :: bool
  continuous :: bool
  camera :: "camera option"
  current :: fsm_state
  scheduler :: world
  streaming :: "camera set"
  signals :: "signal list"

text \<open>
  What the scanner is run in: what \<^verbatim>\<open>Visibility.state()\<close> reports, and for each camera
  whether its \<^verbatim>\<open>start()\<close> yields a stream (or rejects).
\<close>

record env =
  visibility :: visibility
  acquires :: "camera \<Rightarrow> bool"

text \<open>\<^verbatim>\<open>_configureVideo\<close>: a video that is given must be a \<^verbatim>\<open>VIDEO\<close> element.\<close>

definition configureVideo :: "opts \<Rightarrow> error option" where
  "configureVideo opt =
     (case optVideoTag opt of
        None \<Rightarrow> None
      | Some tag \<Rightarrow> if tag \<noteq> ''VIDEO'' then Some VideoNotVideoElement else None)"

text \<open>
  The constructor, in two parts: \<open>Scanner_init\<close> is what it does once \<^verbatim>\<open>_configureVideo\<close>
  has returned. \<^verbatim>\<open>opts.x !== false\<close> is true for an option left out;
  \<^verbatim>\<open>opts.scanPeriod || 1\<close> and \<^verbatim>\<open>opts.refractoryPeriod || (5 * 1000)\<close> replace a
  zero as well as a missing value. The last statement emits \<^verbatim>\<open>'inactive'\<close>.
\<close>

definition Scanner_init :: "opts \<Rightarrow> scanner" where
  "Scanner_init opt =
     \<lparr>backgroundScan = (optBackgroundScan opt \<noteq> Some False),
      continuous = (optContinuous opt \<noteq> Some False),
      camera = None,
      current = Stopped,
      scheduler = world_new (ScanProvider_new
        (case optCaptureImage opt of None \<Rightarrow> False | Some b \<Rightarrow> b)
        (case optScanPeriod opt of None \<Rightarrow> 1 | Some n \<Rightarrow> if n = 0 then 1 else n)
        (case optRefractoryPeriod opt of None \<Rightarrow> 5 * 1000
         | Some n \<Rightarrow> if n = 0 then 5 * 1000 else n)),
      streaming = {},
      signals = [SigInactive]\<rparr>"

definition Scanner_new :: "opts \<Rightarrow> error + scanner" where
  "Scanner_new opt =
     (case configureVideo opt of
        Some err \<Rightarrow> Inl err
      | None \<Rightarrow> Inr (Scanner_init opt))"

subsection \<open>The configuration of the state machine\<close>

text \<open>The \<^verbatim>\<open>from\<close> lists of the four events, as \<^verbatim>\<open>this._fsm.can(name)\<close> reads them.\<close>

fun can :: "fsm_event \<Rightarrow> fsm_state \<Rightarrow> bool" where
  "can Start s = (s = Stopped)"
| "can Stop s = (s = Started \<or> s = Active \<or> s = Inactive)"
| "can Activate s = (s = Started \<or> s = Inactive)"
| "can Deactivate s = (s = Started \<or> s = Active)"

text \<open>
  The guard of \<^verbatim>\<open>activate\<close>. It is written as a \<^verbatim>\<open>function\<close> expression, so
  \<^verbatim>\<open>this\<close> in it is the receiver its caller supplies, here the argument \<open>this\<close>, and
  \<^verbatim>\<open>this.backgroundScan\<close> is a property read of that receiver.
\<close>

definition condition :: "visibility \<Rightarrow> jsobject \<Rightarrow> fsm_state" where
  "condition vis this =
     (if vis = Visible \<or> truthy (this ''backgroundScan'') then Active else Inactive)"

fun target :: "fsm_event \<Rightarrow> visibility \<Rightarrow> jsobject \<Rightarrow> fsm_state" where
  "target Start vis this = Started"
| "target Stop vis this = Stopped"
| "target Activate vis this = condition vis this"
| "target Deactivate vis this = Inactive"

text \<open>
  The scanner seen as a receiver: the arrow functions of the class see it as \<^verbatim>\<open>this\<close>,
  and line 181 gives it the property \<^verbatim>\<open>backgroundScan\<close>.
\<close>

definition scanner_object :: "scanner \<Rightarrow> jsobject" where
  "scanner_object sc =
     (\<lambda>k. if k = ''backgroundScan'' then JBool (backgroundScan sc) else JUndefined)"

subsection \<open>The callbacks\<close>

text \<open>
  A transition either succeeds with the new scanner, \<open>Inr\<close>, or fails with an error and
  the scanner as the failure leaves it, \<open>Inl\<close>.
\<close>

type_synonym outcome = "(error \<times> scanner) + scanner"

fun after :: "outcome \<Rightarrow> scanner" where
  "after (Inl (err, sc)) = sc"
| "after (Inr sc) = sc"

fun failure :: "outcome \<Rightarrow> error option" where
  "failure (Inl (err, sc)) = Some err"
| "failure (Inr sc) = None"

text \<open>
  \<^verbatim>\<open>_enableScan(camera)\<close>: \<^verbatim>\<open>camera || this._camera\<close> is recorded first, a missing camera
  throws before any device is touched, and a rejected \<^verbatim>\<open>camera.start()\<close> ends the
  function before the scan provider is started.
\<close>

definition enableScan :: "env \<Rightarrow> camera option \<Rightarrow> scanner \<Rightarrow> outcome" where
  "enableScan e cam sc =
     (let sc1 = sc\<lparr>camera := (case cam of Some c \<Rightarrow> Some c | None \<Rightarrow> camera sc)\<rparr>
      in case camera sc1 of
           None \<Rightarrow> Inl (CameraNotDefined, sc1)
         | Some c \<Rightarrow>
             if \<not> acquires e c then Inl (AcquisitionFailed, sc1)
             else
               let sc2 = sc1\<lparr>streaming := insert c (streaming sc1)\<rparr>
               in Inr (if continuous sc2
                       then sc2\<lparr>scheduler := ScanProvider_start (scheduler sc2)\<rparr>
                       else sc2))"

definition disableScan :: "scanner \<Rightarrow> scanner" where
  "disableScan sc =
     (let sc1 = sc\<lparr>scheduler := ScanProvider_stop (scheduler sc)\<rparr>
      in case camera sc1 of
           None \<Rightarrow> sc1
         | Some c \<Rightarrow> sc1\<lparr>streaming := streaming sc1 - {c}\<rparr>)"

definition onenteractive :: "env \<Rightarrow> camera option \<Rightarrow> scanner \<Rightarrow> outcome" where
  "onenteractive e cam sc =
     (case enableScan e cam sc of
        Inl x \<Rightarrow> Inl x
      | Inr sc1 \<Rightarrow> Inr (sc1\<lparr>signals := signals sc1 @ [SigActive]\<rparr>))"

definition onleaveactive :: "scanner \<Rightarrow> scanner" where
  "onleaveactive sc = (let sc1 = disableScan sc in sc1\<lparr>signals := signals sc1 @ [SigInactive]\<rparr>)"

subsection \<open>The transition engine\<close>

text \<open>The intermediate state of \<^verbatim>\<open>activate\<close> for each of its source states.\<close>

fun pseudo :: "fsm_state \<Rightarrow> fsm_state" where
  "pseudo Started = StartedActivate"
| "pseudo Inactive = InactiveActivate"
| "pseudo s = s"

text \<open>
  The transition engine of the state-machine library (\<^verbatim>\<open>fsm-as-promised\<close>, required at
  line 4), whose code is not among the source files, as the library runs a request. A
  request that is not legal in the current state is rejected and changes nothing. A legal
  \<^verbatim>\<open>activate\<close> first takes the machine to the intermediate state of its source state and
  asks the guard there. Then the hooks run in the order their names in the configuration
  give: the leave hook of the state left, the enter hook of the target, then the change
  of state. When the enter hook fails, the error goes to the caller and the machine stays
  where it is, which for \<^verbatim>\<open>activate\<close> is the intermediate state; none of the four events
  is legal there. The receiver the engine gives the guard is \<open>recv\<close> of the scanner.
\<close>

definition step :: "(scanner \<Rightarrow> jsobject) \<Rightarrow> fsm_event \<Rightarrow> env \<Rightarrow> camera option \<Rightarrow> scanner \<Rightarrow> outcome" where
  "step recv ev e arg sc =
     (if \<not> can ev (current sc) then Inl (InvalidTransition, sc)
      else
        let scp = (if ev = Activate then sc\<lparr>current := pseudo (current sc)\<rparr> else sc);
            to = target ev (visibility e) (recv scp);
            sc1 = (if current sc = Active then onleaveactive scp else scp)
        in if to = Active
           then (case onenteractive e arg sc1 of
                   Inl x \<Rightarrow> Inl x
                 | Inr sc2 \<Rightarrow> Inr (sc2\<lparr>current := Active\<rparr>))
           else Inr (sc1\<lparr>current := to\<rparr>))"

text \<open>
  A request with the hook \<^verbatim>\<open>onenteredstarted\<close> of the source: once the machine is in
  Started, the hook requests \<^verbatim>\<open>activate\<close> with the argument of \<^verbatim>\<open>start\<close>. When that
  request fails, so does \<^verbatim>\<open>start\<close>, and nothing takes the machine back: it stays in the
  intermediate state in which \<^verbatim>\<open>activate\<close> failed.
\<close>

definition fire :: "(scanner \<Rightarrow> jsobject) \<Rightarrow> fsm_event \<Rightarrow> env \<Rightarrow> camera option \<Rightarrow> scanner \<Rightarrow> outcome" where
  "fire recv ev e arg sc =
     (case step recv ev e arg sc of
        Inl x \<Rightarrow> Inl x
      | Inr sc1 \<Rightarrow>
          if current sc1 = Started then step recv Activate e arg sc1 else Inr sc1)"

text \<open>
  The receiver of the guard is an object of the library's own, here the machine object
  that \<^verbatim>\<open>StateMachine.create\<close> returns. Whichever of its objects the library calls the
  guard on, it is not the scanner, which is never handed to the library (the
  configuration is its only argument), and it has no property \<^verbatim>\<open>backgroundScan\<close>:
  nothing in the source assigns one to any object but the scanner.
\<close>

definition machine_object :: "scanner \<Rightarrow> jsobject" where
  "machine_object sc =
     (\<lambda>k. if k = ''current''
          then JString (case current sc of Stopped \<Rightarrow> ''stopped'' | Started \<Rightarrow> ''started''
                        | Active \<Rightarrow> ''active'' | Inactive \<Rightarrow> ''inactive''
                        | StartedActivate \<Rightarrow> ''started__activate''
                        | InactiveActivate \<Rightarrow> ''inactive__activate'')
          else JUndefined)"

definition fsm :: "fsm_event \<Rightarrow> env \<Rightarrow> camera option \<Rightarrow> scanner \<Rightarrow> outcome" where
  "fsm ev e arg sc = fire machine_object ev e arg sc"

subsection \<open>The operations of the scanner\<close>

text \<open>\<^verbatim>\<open>start(camera = null)\<close>: \<^verbatim>\<open>stop\<close> is requested with no argument.\<close>

definition Scanner_start :: "env \<Rightarrow> camera option \<Rightarrow> scanner \<Rightarrow> outcome" where
  "Scanner_start e cam sc =
     (if can Start (current sc) then fsm Start e cam sc
      else (case fsm Stop e None sc of
              Inl x \<Rightarrow> Inl x
            | Inr sc1 \<Rightarrow> fsm Start e cam sc1))"

definition Scanner_stop :: "env \<Rightarrow> scanner \<Rightarrow> outcome" where
  "Scanner_stop e sc = (if can Stop (current sc) then fsm Stop e None sc else Inr sc)"

definition Scanner_scan :: "nat \<Rightarrow> analysis option \<Rightarrow> scanner \<Rightarrow> payload option \<times> scanner" where
  "Scanner_scan now a sc =
     (let (r, w) = ScanProvider_scan now a (scheduler sc) in (r, sc\<lparr>scheduler := w\<rparr>))"

text \<open>The setter of \<^verbatim>\<open>continuous\<close>.\<close>

definition set_continuous :: "bool \<Rightarrow> scanner \<Rightarrow> scanner" where
  "set_continuous c sc =
     (let sc1 = sc\<lparr>continuous := c\<rparr>
      in if c \<and> current sc1 = Active
         then sc1\<lparr>scheduler := ScanProvider_start (scheduler sc1)\<rparr>
         else sc1\<lparr>scheduler := ScanProvider_stop (scheduler sc1)\<rparr>)"

subsection \<open>Sequences of transition requests\<close>

type_synonym request = "fsm_event \<times> env \<times> camera option"

fun run_requests :: "scanner \<Rightarrow> request list \<Rightarrow> scanner" where
  "run_requests sc [] = sc"
| "run_requests sc ((ev, e, arg) # rs) = run_requests (after (fsm ev e arg sc)) rs"

text \<open>How many of the requests took the machine out of Active.\<close>

fun leaves_active :: "scanner \<Rightarrow> request list \<Rightarrow> nat" where
  "leaves_active sc [] = 0"
| "leaves_active sc ((ev, e, arg) # rs) =
     (if current sc = Active \<and> current (after (fsm ev e arg sc)) \<noteq> Active then 1 else 0)
     + leaves_active (after (fsm ev e arg sc)) rs"

text \<open>How many of the requests succeeded and ended in Inactive.\<close>

fun enters_inactive :: "scanner \<Rightarrow> request list \<Rightarrow> nat" where
  "enters_inactive sc [] = 0"
| "enters_inactive sc ((ev, e, arg) # rs) =
     (if failure (fsm ev e arg sc) = None \<and> current (after (fsm ev e arg sc)) = Inactive
      then 1 else 0)
     + enters_inactive (after (fsm ev e arg sc)) rs"

subsection \<open>Scanners and pages of the scenarios\<close>

definition default_opts :: opts where
  "default_opts = \<lparr>optVideoTag = None, optBackgroundScan = None, optContinuous = None,
     optCaptureImage = None, optScanPeriod = None, optRefractoryPeriod = None\<rparr>"

definition no_background :: opts where
  "no_background = default_opts\<lparr>optBackgroundScan := Some False\<rparr>"

definition page_visible :: env where
  "page_visible = \<lparr>visibility = Visible, acquires = (\<lambda>c. True)\<rparr>"

definition page_hidden :: env where
  "page_hidden = \<lparr>visibility = Hidden, acquires = (\<lambda>c. True)\<rparr>"

text \<open>The page is visible and no camera yields a stream.\<close>

definition camera_fails :: env where
  "camera_fails = \<lparr>visibility = Visible, acquires = (\<lambda>c. False)\<rparr>"

text \<open>A scanner made with the default options, and the same after \<^verbatim>\<open>start(1)\<close> on a
  visible page.\<close>

definition fresh :: scanner where
  "fresh = Scanner_init default_opts"

definition scanning :: scanner where
  "scanning = after (Scanner_start page_visible (Some 1) fresh)"

text \<open>The states that the single loop of scenario A passes through.\<close>

definition loop_state :: "int \<Rightarrow> string option \<Rightarrow> nat option \<Rightarrow> scan_event list \<Rightarrow> world" where
  "loop_state n l d evs =
     \<lparr>provider = \<lparr>scanPeriod = 3, captureImage = False, refractoryPeriod = 5000,
        frameCount = n, lastResult = l, active = True, refractoryTimeout = d\<rparr>,
      rafPending = 1, emitTasks = [], emitted = evs\<rparr>"

section \<open>Properties of the scan scheduler\<close>

lemmas sched_defs = ScanProvider_start_def ScanProvider_stop_def world_new_def
  ScanProvider_new_def host_tick_def fire_due_def run_callback_def scan'_def analyze'_def
  deliver_def

lemma run_ticks_Nil: "run_ticks w [] = w"
  by (simp add: run_ticks_def)

lemma run_ticks_Cons: "run_ticks w (ta # tas) = run_ticks (host_tick w ta) tas"
  by (simp add: run_ticks_def)

subsection \<open>The delay of a timer\<close>

lemma timer_delay_small: "ms < 2 ^ 31 \<Longrightarrow> timer_delay ms = ms"
  by (simp add: timer_delay_def)

lemma timer_delay_5000: "timer_delay 5000 = 5000"
  by (simp add: timer_delay_def)

text \<open>From \<open>2^31\<close> ms on the delay is not the period: the timer is due at once, or early.\<close>

lemma timer_delay_wraps: "timer_delay (2 ^ 31) = 0 \<and> timer_delay (2 ^ 32 + 5000) = 5000"
  by (simp add: timer_delay_def)

text \<open>With such a period the content is no longer stored at the next tick, which emits it
  again.\<close>

lemma long_refractory_reemits:
  "emitted (run_ticks (ScanProvider_start (world_new (ScanProvider_new False 1 (2 ^ 31))))
      [(0, Some abc), (16, Some abc)]) = [(''ABC'', None), (''ABC'', None)]"
proof -
  have one: "host_tick (ScanProvider_start (world_new (ScanProvider_new False 1 (2 ^ 31))))
        (0, Some abc)
      = \<lparr>provider = \<lparr>scanPeriod = 1, captureImage = False, refractoryPeriod = 2 ^ 31,
           frameCount = 0, lastResult = Some ''ABC'', active = True,
           refractoryTimeout = Some 0\<rparr>,
         rafPending = 1, emitTasks = [], emitted = [(''ABC'', None)]\<rparr>"
    using timer_delay_wraps by (simp add: sched_defs abc_def)
  show ?thesis
    unfolding run_ticks_Cons run_ticks_Nil one
    using timer_delay_wraps by (simp add: sched_defs abc_def)
qed

subsection \<open>What one tick changes\<close>

lemma scan'_cases:
  "emitTasks (scan' t a w) = emitTasks w \<or>
   (\<exists>an img. a = Some an \<and> emitTasks (scan' t a w) = emitTasks w @ [(result an, img)] \<and>
      lastResult (provider (scan' t a w)) = Some (result an) \<and>
      refractoryTimeout (provider (scan' t a w))
        = Some (t + timer_delay (refractoryPeriod (provider w))))"
  by (auto simp: scan'_def analyze'_def Let_def split: option.splits if_splits)

lemma scan'_duplicate:
  assumes "lastResult (provider w) = Some (result an)"
  shows "emitTasks (scan' t (Some an) w) = emitTasks w \<and>
         emitted (scan' t (Some an) w) = emitted w \<and>
         lastResult (provider (scan' t (Some an) w)) = lastResult (provider w) \<and>
         refractoryTimeout (provider (scan' t (Some an) w)) = refractoryTimeout (provider w) \<and>
         refractoryPeriod (provider (scan' t (Some an) w)) = refractoryPeriod (provider w)"
  using assms by (simp add: scan'_def analyze'_def Let_def)

lemma fire_due_early:
  "refractoryTimeout (provider w) = Some d \<Longrightarrow> t < d \<Longrightarrow> fire_due t w = w"
  by (simp add: fire_due_def)

lemma fire_due_frame:
  "emitTasks (fire_due t w) = emitTasks w \<and> emitted (fire_due t w) = emitted w \<and>
   rafPending (fire_due t w) = rafPending w \<and>
   refractoryPeriod (provider (fire_due t w)) = refractoryPeriod (provider w)"
  by (simp add: fire_due_def split: option.splits)

lemma run_callback_cases:
  "emitTasks (run_callback t a w) = emitTasks w \<or>
   (\<exists>an img. a = Some an \<and> emitTasks (run_callback t a w) = emitTasks w @ [(result an, img)] \<and>
      lastResult (provider (run_callback t a w)) = Some (result an) \<and>
      refractoryTimeout (provider (run_callback t a w))
        = Some (t + timer_delay (refractoryPeriod (provider w))))"
  using scan'_cases [of t a "w\<lparr>rafPending := rafPending w - 1\<rparr>"]
  by (auto simp: run_callback_def)

lemma run_callback_emitted: "emitted (run_callback t a w) = emitted w"
  by (simp add: run_callback_def scan'_def analyze'_def Let_def split: option.splits prod.splits)

lemma run_callback_duplicate:
  assumes "lastResult (provider w) = Some (result an)"
  shows "emitTasks (run_callback t (Some an) w) = emitTasks w \<and>
         lastResult (provider (run_callback t (Some an) w)) = lastResult (provider w) \<and>
         refractoryTimeout (provider (run_callback t (Some an) w)) = refractoryTimeout (provider w)"
  using assms scan'_duplicate [of "w\<lparr>rafPending := rafPending w - 1\<rparr>" an t]
  by (simp add: run_callback_def)

text \<open>A tick inside the refractory window whose content is the stored one changes nothing
  that the dedup step looks at, and emits nothing.\<close>

lemma host_tick_suppressed:
  assumes "lastResult (provider w) = Some (result an)"
    and "refractoryTimeout (provider w) = Some d" and "t < d" and "emitTasks w = []"
  shows "emitted (host_tick w (t, Some an)) = emitted w \<and>
         emitTasks (host_tick w (t, Some an)) = [] \<and>
         lastResult (provider (host_tick w (t, Some an))) = Some (result an) \<and>
         refractoryTimeout (provider (host_tick w (t, Some an))) = Some d"
  using assms run_callback_duplicate [of w an t]
  by (simp add: host_tick_def fire_due_early deliver_def run_callback_emitted)

lemma run_ticks_suppressed:
  assumes "lastResult (provider w) = Some c"
    and "refractoryTimeout (provider w) = Some d" and "emitTasks w = []"
    and "\<forall>ta \<in> set ticks. fst ta < d \<and> (\<exists>a. snd ta = Some a \<and> result a = c)"
  shows "emitted (run_ticks w ticks) = emitted w \<and>
         emitTasks (run_ticks w ticks) = [] \<and>
         lastResult (provider (run_ticks w ticks)) = Some c \<and>
         refractoryTimeout (provider (run_ticks w ticks)) = Some d"
  using assms
proof (induction ticks arbitrary: w)
  case Nil
  then show ?case by (simp add: run_ticks_def)
next
  case (Cons ta ticks)
  obtain t a where ta: "ta = (t, Some a)" and t: "t < d" and a: "result a = c"
    using Cons.prems(4) by (cases ta) auto
  have step: "emitted (host_tick w ta) = emitted w \<and> emitTasks (host_tick w ta) = [] \<and>
      lastResult (provider (host_tick w ta)) = Some c \<and>
      refractoryTimeout (provider (host_tick w ta)) = Some d"
    using host_tick_suppressed [of w a d t] Cons.prems(1-3) t a ta by simp
  have "emitted (run_ticks (host_tick w ta) ticks) = emitted (host_tick w ta) \<and>
        emitTasks (run_ticks (host_tick w ta) ticks) = [] \<and>
        lastResult (provider (run_ticks (host_tick w ta) ticks)) = Some c \<and>
        refractoryTimeout (provider (run_ticks (host_tick w ta) ticks)) = Some d"
    using Cons.IH [of "host_tick w ta"] step Cons.prems(4) by simp
  then show ?case using step by (simp add: run_ticks_def)
qed

text \<open>A tick that emits has stored its content and set the timer.\<close>

lemma host_tick_first:
  assumes "emitTasks w = []"
    and "emitted (host_tick w (t0, Some a0)) = emitted w @ [ev]"
  shows "fst ev = result a0 \<and> emitTasks (host_tick w (t0, Some a0)) = [] \<and>
         lastResult (provider (host_tick w (t0, Some a0))) = Some (result a0) \<and>
         refractoryTimeout (provider (host_tick w (t0, Some a0)))
           = Some (t0 + timer_delay (refractoryPeriod (provider w)))"
  using assms run_callback_cases [of t0 "Some a0" "fire_due t0 w"] fire_due_frame [of t0 w]
  by (auto simp: host_tick_def deliver_def run_callback_emitted)

subsection \<open>Duplicate suppression\<close>

text \<open>
  Claim C1. Take any state with no emission pending, and a tick at time \<open>t0\<close> that emits
  an event for the content \<open>c\<close> of its analysis (the first emission of \<open>c\<close>). Let any number
  of ticks follow, each with an analysis of content \<open>c\<close> and each earlier than the time at
  which the refractory timer set by the emission is due, so that this timer has not fired.
  That time is \<open>t0\<close> plus the delay the host keeps for \<open>refractoryPeriod\<close>, which is
  \<open>refractoryPeriod\<close> itself for every period below \<open>2^31\<close> ms. Then after every prefix of
  these ticks the events emitted are still exactly the one event of the first tick, which
  carries \<open>c\<close>; the stored content is still \<open>c\<close>; and the pending timer is still the one
  set at \<open>t0\<close>: no later tick emitted or restarted it.
\<close>

theorem dedup_exactly_once:
  assumes "emitTasks w = []"
    and "emitted (host_tick w (t0, Some a0)) = emitted w @ [ev]"
    and "\<forall>ta \<in> set ticks. fst ta < t0 + timer_delay (refractoryPeriod (provider w)) \<and>
           (\<exists>a. snd ta = Some a \<and> result a = result a0)"
  shows "fst ev = result a0 \<and>
         emitted (run_ticks (host_tick w (t0, Some a0)) (take n ticks)) = emitted w @ [ev] \<and>
         lastResult (provider (run_ticks (host_tick w (t0, Some a0)) (take n ticks)))
           = Some (result a0) \<and>
         refractoryTimeout (provider (run_ticks (host_tick w (t0, Some a0)) (take n ticks)))
           = Some (t0 + timer_delay (refractoryPeriod (provider w))) \<and>
         (refractoryPeriod (provider w) < 2 ^ 31 \<longrightarrow>
            timer_delay (refractoryPeriod (provider w)) = refractoryPeriod (provider w))"
proof -
  have sub: "\<forall>ta \<in> set (take n ticks).
           fst ta < t0 + timer_delay (refractoryPeriod (provider w)) \<and>
           (\<exists>a. snd ta = Some a \<and> result a = result a0)"
    using assms(3) by (meson in_set_takeD)
  show ?thesis
    using host_tick_first [OF assms(1,2)]
      run_ticks_suppressed [of "host_tick w (t0, Some a0)" "result a0"
         "t0 + timer_delay (refractoryPeriod (provider w))" "take n ticks"] assms(2) sub
    by (simp add: timer_delay_small)
qed

theorem dedup_exactly_once_witness:
  "emitTasks every_frame = [] \<and>
   emitted (host_tick every_frame (0, Some abc)) = emitted every_frame @ [(''ABC'', None)] \<and>
   refractoryPeriod (provider every_frame) = 5000 \<and>
   timer_delay (refractoryPeriod (provider every_frame)) = 5000 \<and>
   emitted (run_ticks (host_tick every_frame (0, Some abc))
      (take 3 [(1000, Some abc), (2000, Some abc), (3000, Some abc)])) = [(''ABC'', None)]"
proof -
  have p: "refractoryPeriod (provider every_frame) = 5000"
    by (simp add: every_frame_def ScanProvider_start_def world_new_def ScanProvider_new_def)
  have h1: "emitTasks every_frame = []"
    by (simp add: every_frame_def ScanProvider_start_def world_new_def)
  have h2: "emitted (host_tick every_frame (0, Some abc))
      = emitted every_frame @ [(''ABC'', None)]"
    by (simp add: every_frame_def ScanProvider_start_def world_new_def ScanProvider_new_def
        host_tick_def fire_due_def run_callback_def scan'_def analyze'_def deliver_def abc_def)
  have h3: "\<forall>ta \<in> set [(1000, Some abc), (2000, Some abc), (3000, Some abc)].
      fst ta < 0 + timer_delay (refractoryPeriod (provider every_frame)) \<and>
      (\<exists>a. snd ta = Some a \<and> result a = result abc)"
    by (simp add: p timer_delay_5000)
  have e: "emitted every_frame = []"
    by (simp add: every_frame_def ScanProvider_start_def world_new_def)
  show ?thesis
    using h1 h2 e p
      dedup_exactly_once [OF h1 h2 h3, of 3]
    by (simp add: timer_delay_5000)
qed

subsection \<open>Scenario A: throttling meets duplicate suppression\<close>

lemma scenario_A_loop: "scenario_A = loop_state 0 None None []"
  by (simp add: scenario_A_def loop_state_def sched_defs)

lemma emitted_loop_state: "emitted (loop_state n l d evs) = evs"
  by (simp add: loop_state_def)

text \<open>A tick that does not complete the period only counts, after the due timer fired.\<close>

lemma loop_idle:
  "n + 1 \<noteq> 3 \<Longrightarrow> host_tick (loop_state n l d evs) (t, a)
     = (if d \<noteq> None \<and> the d \<le> t then loop_state (n + 1) None None evs
        else loop_state (n + 1) l d evs)"
  by (cases d) (simp_all add: loop_state_def sched_defs timer_delay_5000 Let_def)

text \<open>The third tick samples: it emits unless the content is stored and the timer pending.\<close>

lemma loop_sample:
  "result an = ''ABC'' \<Longrightarrow> host_tick (loop_state 2 l d evs) (t, Some an)
     = (if l = Some ''ABC'' \<and> \<not> (d \<noteq> None \<and> the d \<le> t) then loop_state 0 l d evs
        else loop_state 0 (Some ''ABC'') (Some (t + 5000)) (evs @ [(''ABC'', None)]))"
  by (cases d) (simp_all add: loop_state_def sched_defs timer_delay_5000 Let_def)

lemma scenario_A_three:
  assumes "result an = ''ABC''"
  shows "run_ticks scenario_A [(t1, Some an)] = loop_state 1 None None []"
    and "run_ticks scenario_A [(t1, Some an), (t2, Some an)] = loop_state 2 None None []"
    and "run_ticks scenario_A ([(t1, Some an), (t2, Some an), (t3, Some an)] @ rest)
      = run_ticks (loop_state 0 (Some ''ABC'') (Some (t3 + 5000)) [(''ABC'', None)]) rest"
  using assms by (simp_all add: run_ticks_Cons run_ticks_Nil scenario_A_loop loop_idle loop_sample)

lemma scenario_A_six:
  assumes "result an = ''ABC''" and "t4 \<le> t5" and "t5 \<le> t6"
  shows "run_ticks (loop_state 0 (Some ''ABC'') (Some (t3 + 5000)) [(''ABC'', None)])
           [(t4, Some an)]
      = (if t3 + 5000 \<le> t4 then loop_state 1 None None [(''ABC'', None)]
         else loop_state 1 (Some ''ABC'') (Some (t3 + 5000)) [(''ABC'', None)])"
    and "run_ticks (loop_state 0 (Some ''ABC'') (Some (t3 + 5000)) [(''ABC'', None)])
           [(t4, Some an), (t5, Some an)]
      = (if t3 + 5000 \<le> t5 then loop_state 2 None None [(''ABC'', None)]
         else loop_state 2 (Some ''ABC'') (Some (t3 + 5000)) [(''ABC'', None)])"
    and "run_ticks (loop_state 0 (Some ''ABC'') (Some (t3 + 5000)) [(''ABC'', None)])
           [(t4, Some an), (t5, Some an), (t6, Some an)]
      = (if t3 + 5000 \<le> t6
         then loop_state 0 (Some ''ABC'') (Some (t6 + 5000)) [(''ABC'', None), (''ABC'', None)]
         else loop_state 0 (Some ''ABC'') (Some (t3 + 5000)) [(''ABC'', None)])"
  using assms by (simp_all add: run_ticks_Cons run_ticks_Nil loop_idle loop_sample)

text \<open>
  Claim C2, as the code has it. In scenario A (\<open>scanPeriod = 3\<close>, no snapshots, a
  refractory period of 5000 ms, every analysis with content \<open>ABC\<close>), with the ticks 4, 5
  and 6 in time order: no event after ticks 1 and 2, the one event \<open>(ABC, none)\<close> after
  tick 3 and still only that one after ticks 4 and 5. Tick 6 samples again, and it emits a
  second event exactly when at least 5000 ms have passed since tick 3, so that the
  refractory timer has fired; earlier than that it is suppressed as a duplicate.
\<close>

theorem scenario_A_amended:
  assumes "result an = ''ABC''" and "t4 \<le> t5" and "t5 \<le> t6"
  shows "emitted (run_ticks scenario_A [(t1, Some an)]) = [] \<and>
         emitted (run_ticks scenario_A [(t1, Some an), (t2, Some an)]) = [] \<and>
         emitted (run_ticks scenario_A [(t1, Some an), (t2, Some an), (t3, Some an)])
           = [(''ABC'', None)] \<and>
         emitted (run_ticks scenario_A [(t1, Some an), (t2, Some an), (t3, Some an),
           (t4, Some an)]) = [(''ABC'', None)] \<and>
         emitted (run_ticks scenario_A [(t1, Some an), (t2, Some an), (t3, Some an),
           (t4, Some an), (t5, Some an)]) = [(''ABC'', None)] \<and>
         emitted (run_ticks scenario_A [(t1, Some an), (t2, Some an), (t3, Some an),
           (t4, Some an), (t5, Some an), (t6, Some an)])
           = (if t6 < t3 + 5000 then [(''ABC'', None)] else [(''ABC'', None), (''ABC'', None)])"
proof -
  have a3: "run_ticks scenario_A [(t1, Some an), (t2, Some an), (t3, Some an)]
      = loop_state 0 (Some ''ABC'') (Some (t3 + 5000)) [(''ABC'', None)]"
    using scenario_A_three(3) [OF assms(1), of t1 t2 t3 "[]"] by (simp add: run_ticks_Nil)
  have a4: "run_ticks scenario_A [(t1, Some an), (t2, Some an), (t3, Some an), (t4, Some an)]
      = run_ticks (loop_state 0 (Some ''ABC'') (Some (t3 + 5000)) [(''ABC'', None)])
          [(t4, Some an)]"
    using scenario_A_three(3) [OF assms(1), of t1 t2 t3 "[(t4, Some an)]"] by simp
  have a5: "run_ticks scenario_A [(t1, Some an), (t2, Some an), (t3, Some an), (t4, Some an),
        (t5, Some an)]
      = run_ticks (loop_state 0 (Some ''ABC'') (Some (t3 + 5000)) [(''ABC'', None)])
          [(t4, Some an), (t5, Some an)]"
    using scenario_A_three(3) [OF assms(1), of t1 t2 t3 "[(t4, Some an), (t5, Some an)]"] by simp
  have a6: "run_ticks scenario_A [(t1, Some an), (t2, Some an), (t3, Some an), (t4, Some an),
        (t5, Some an), (t6, Some an)]
      = run_ticks (loop_state 0 (Some ''ABC'') (Some (t3 + 5000)) [(''ABC'', None)])
          [(t4, Some an), (t5, Some an), (t6, Some an)]"
    using scenario_A_three(3) [OF assms(1), of t1 t2 t3
        "[(t4, Some an), (t5, Some an), (t6, Some an)]"] by simp
  show ?thesis
    unfolding a3 a4 a5 a6 scenario_A_three(1,2) [OF assms(1)] scenario_A_six [OF assms]
    by (simp add: emitted_loop_state)
qed

theorem scenario_A_amended_witness:
  "result abc = ''ABC'' \<and> (4000::nat) \<le> 5000 \<and> (5000::nat) \<le> 6000 \<and>
   emitted (run_ticks scenario_A [(1000, Some abc), (2000, Some abc), (3000, Some abc)])
     = [(''ABC'', None)] \<and>
   emitted (run_ticks scenario_A [(1000, Some abc), (2000, Some abc), (3000, Some abc),
     (4000, Some abc), (5000, Some abc), (6000, Some abc)]) = [(''ABC'', None)]"
  using scenario_A_amended [where an = abc and ?t1.0 = 1000 and ?t2.0 = 2000 and ?t3.0 = 3000
      and ?t4.0 = 4000 and ?t5.0 = 5000 and ?t6.0 = 6000]
  by (simp add: abc_def)

text \<open>
  Claim C2 as it is written fails: with a tick every 16 ms, the sixth tick of scenario A
  emits nothing, and the events after six ticks are those after five.
\<close>

theorem scenario_A_tick6_suppressed:
  "emitted (run_ticks scenario_A [(16, Some abc), (32, Some abc), (48, Some abc),
      (64, Some abc), (80, Some abc)]) = [(''ABC'', None)] \<and>
   emitted (run_ticks scenario_A [(16, Some abc), (32, Some abc), (48, Some abc),
      (64, Some abc), (80, Some abc), (96, Some abc)]) = [(''ABC'', None)]"
proof -
  have r: "result abc = ''ABC''" by (simp add: abc_def)
  have a5: "run_ticks scenario_A [(16, Some abc), (32, Some abc), (48, Some abc),
        (64, Some abc), (80, Some abc)]
      = run_ticks (loop_state 0 (Some ''ABC'') (Some (48 + 5000)) [(''ABC'', None)])
          [(64, Some abc), (80, Some abc)]"
    using scenario_A_three(3) [OF r, of 16 32 48 "[(64, Some abc), (80, Some abc)]"] by simp
  have a6: "run_ticks scenario_A [(16, Some abc), (32, Some abc), (48, Some abc),
        (64, Some abc), (80, Some abc), (96, Some abc)]
      = run_ticks (loop_state 0 (Some ''ABC'') (Some (48 + 5000)) [(''ABC'', None)])
          [(64, Some abc), (80, Some abc), (96, Some abc)]"
    using scenario_A_three(3) [OF r, of 16 32 48
        "[(64, Some abc), (80, Some abc), (96, Some abc)]"] by simp
  have m: "(64::nat) \<le> 80" "(80::nat) \<le> 96" by simp_all
  show ?thesis
    unfolding a5 a6 scenario_A_six(2,3) [OF r m]
    by (simp add: emitted_loop_state)
qed

subsection \<open>The manual sample\<close>

text \<open>
  Claim C3 as it is written fails: a manual sample of \<open>ABC\<close> on a provider that has stored
  nothing stores \<open>ABC\<close> as the last content and sets the refractory timer.
\<close>

theorem manual_scan_writes_dedup_state:
  "lastResult (provider every_second_frame) = None \<and>
   refractoryTimeout (provider every_second_frame) = None \<and>
   fst (ScanProvider_scan 0 (Some abc) every_second_frame)
     = Some \<lparr>content = ''ABC'', image = None\<rparr> \<and>
   lastResult (provider (snd (ScanProvider_scan 0 (Some abc) every_second_frame))) = Some ''ABC'' \<and>
   refractoryTimeout (provider (snd (ScanProvider_scan 0 (Some abc) every_second_frame)))
     = Some 5000"
  by (simp add: every_second_frame_def ScanProvider_scan_def abc_def sched_defs timer_delay_5000)

text \<open>
  Claim C3, as the code has it. The result of a manual sample does not depend on the tick
  counter or on the stored content: it is none when the analyzer gives nothing or an empty
  content, and otherwise the payload of the analysis, with the snapshot when snapshots are
  on. It is returned to the caller. The call leaves the tick counter, the running flag,
  the registered callbacks, the pending emissions and the emitted events as they are, so
  no scan event comes of it. When it returns none it changes nothing; when it returns a
  payload it stores the content as the last content and restarts the refractory timer.
  \<^verbatim>\<open>Scanner.scan\<close> is that call on the scanner's provider.
\<close>

theorem manual_scan_amended:
  "fst (ScanProvider_scan now a (w\<lparr>provider := (provider w)\<lparr>frameCount := n, lastResult := l\<rparr>\<rparr>))
     = fst (ScanProvider_scan now a w) \<and>
   fst (ScanProvider_scan now a w)
     = (case a of
          None \<Rightarrow> None
        | Some an \<Rightarrow>
            if result an = [] then None
            else Some \<lparr>content = result an,
                       image = (if captureImage (provider w) \<and> canvas an \<noteq> []
                                then Some (canvas an) else None)\<rparr>) \<and>
   snd (ScanProvider_scan now a w)
     = (case fst (ScanProvider_scan now a w) of
          None \<Rightarrow> w
        | Some pl \<Rightarrow>
            w\<lparr>provider := (provider w)
                \<lparr>refractoryTimeout := Some (now + timer_delay (refractoryPeriod (provider w))),
                 lastResult := Some (content pl)\<rparr>\<rparr>) \<and>
   frameCount (provider (snd (ScanProvider_scan now a w))) = frameCount (provider w) \<and>
   active (provider (snd (ScanProvider_scan now a w))) = active (provider w) \<and>
   rafPending (snd (ScanProvider_scan now a w)) = rafPending w \<and>
   emitTasks (snd (ScanProvider_scan now a w)) = emitTasks w \<and>
   emitted (snd (ScanProvider_scan now a w)) = emitted w \<and>
   Scanner_scan now a sc
     = (fst (ScanProvider_scan now a (scheduler sc)),
        sc\<lparr>scheduler := snd (ScanProvider_scan now a (scheduler sc))\<rparr>)"
  by (simp add: ScanProvider_scan_def Scanner_scan_def analyze'_def Let_def
      split: option.splits prod.splits)

subsection \<open>Starting and stopping the loop\<close>

text \<open>
  Claim C6 as it is written fails: a second \<^verbatim>\<open>start()\<close> registers a second callback,
  and with \<open>scanPeriod = 2\<close> the two loops together sample on the first animation frame,
  where a single loop has only counted to one.
\<close>

theorem start_twice_two_loops:
  "rafPending (ScanProvider_start every_second_frame) = 1 \<and>
   rafPending (ScanProvider_start (ScanProvider_start every_second_frame)) = 2 \<and>
   emitted (animation_frame 16 (Some abc) (ScanProvider_start every_second_frame)) = [] \<and>
   emitted (animation_frame 16 (Some abc)
      (ScanProvider_start (ScanProvider_start every_second_frame))) = [(''ABC'', None)]"
  by (simp add: every_second_frame_def animation_frame_def abc_def sched_defs Let_def
      numeral_2_eq_2 timer_delay_5000)

text \<open>
  Claim C6, as the code has it. Every \<^verbatim>\<open>start()\<close> sets the running flag and registers
  one more animation-frame callback, also when the loop is running already, so after
  \<^verbatim>\<open>start(); start()\<close> there is one more loop than after a single \<^verbatim>\<open>start()\<close>.
  \<^verbatim>\<open>stop()\<close> is idempotent, and it changes nothing when the loop is not running.
\<close>

theorem start_stop_amended:
  "ScanProvider_start (ScanProvider_start w)
     = (ScanProvider_start w)\<lparr>rafPending := rafPending (ScanProvider_start w) + 1\<rparr> \<and>
   ScanProvider_start w
     = w\<lparr>provider := (provider w)\<lparr>active := True\<rparr>, rafPending := rafPending w + 1\<rparr> \<and>
   ScanProvider_stop (ScanProvider_stop w) = ScanProvider_stop w \<and>
   (\<not> active (provider w) \<longrightarrow> ScanProvider_stop w = w)"
  by (simp add: ScanProvider_start_def ScanProvider_stop_def)

theorem start_stop_amended_witness:
  "\<not> active (provider every_second_frame) \<and>
   ScanProvider_stop every_second_frame = every_second_frame"
  using start_stop_amended [of every_second_frame]
  by (simp add: every_second_frame_def world_new_def ScanProvider_new_def)

text \<open>
  Claim C10. Of the provider's fields, \<^verbatim>\<open>stop()\<close> and a following \<^verbatim>\<open>start()\<close> write the
  running flag only (\<^verbatim>\<open>start()\<close> also registers its animation-frame callback with the
  host): the stored content, the pending refractory timer and the tick counter are as
  before. So when a content is stored and its timer is pending, a tick after the restart
  and before the timer is due, with that content, emits nothing and leaves both as they
  are.
\<close>

theorem stop_start_keep_dedup_and_counter:
  "provider (ScanProvider_stop w) = (provider w)\<lparr>active := False\<rparr> \<and>
   provider (ScanProvider_start (ScanProvider_stop w)) = (provider w)\<lparr>active := True\<rparr> \<and>
   ScanProvider_start (ScanProvider_stop w)
     = w\<lparr>provider := (provider w)\<lparr>active := True\<rparr>, rafPending := rafPending w + 1\<rparr> \<and>
   lastResult (provider (ScanProvider_start (ScanProvider_stop w))) = lastResult (provider w) \<and>
   refractoryTimeout (provider (ScanProvider_start (ScanProvider_stop w)))
     = refractoryTimeout (provider w) \<and>
   frameCount (provider (ScanProvider_start (ScanProvider_stop w))) = frameCount (provider w) \<and>
   (lastResult (provider w) = Some (result an) \<and> emitTasks w = [] \<and>
    (\<exists>d. refractoryTimeout (provider w) = Some d \<and> t < d) \<longrightarrow>
      emitted (host_tick (ScanProvider_start (ScanProvider_stop w)) (t, Some an)) = emitted w \<and>
      lastResult (provider (host_tick (ScanProvider_start (ScanProvider_stop w)) (t, Some an)))
        = lastResult (provider w) \<and>
      refractoryTimeout (provider (host_tick (ScanProvider_start (ScanProvider_stop w)) (t, Some an)))
        = refractoryTimeout (provider w))"
proof -
  have frame: "ScanProvider_start (ScanProvider_stop w)
     = w\<lparr>provider := (provider w)\<lparr>active := True\<rparr>, rafPending := rafPending w + 1\<rparr>"
    by (simp add: ScanProvider_start_def ScanProvider_stop_def)
  have "emitted (host_tick (ScanProvider_start (ScanProvider_stop w)) (t, Some an)) = emitted w \<and>
      lastResult (provider (host_tick (ScanProvider_start (ScanProvider_stop w)) (t, Some an)))
        = lastResult (provider w) \<and>
      refractoryTimeout (provider (host_tick (ScanProvider_start (ScanProvider_stop w)) (t, Some an)))
        = refractoryTimeout (provider w)"
    if "lastResult (provider w) = Some (result an)" "emitTasks w = []"
       "refractoryTimeout (provider w) = Some d" "t < d" for d
    using that host_tick_suppressed [of "ScanProvider_start (ScanProvider_stop w)" an d t]
    by (simp add: frame)
  moreover have "provider (ScanProvider_stop w) = (provider w)\<lparr>active := False\<rparr>"
    by (simp add: ScanProvider_stop_def)
  ultimately show ?thesis
    by (auto simp: frame)
qed

theorem stop_start_keep_dedup_and_counter_witness:
  "lastResult (provider (host_tick every_frame (0, Some abc))) = Some (result abc) \<and>
   emitTasks (host_tick every_frame (0, Some abc)) = [] \<and>
   refractoryTimeout (provider (host_tick every_frame (0, Some abc))) = Some 5000 \<and>
   (1000::nat) < 5000 \<and>
   emitted (host_tick every_frame (0, Some abc)) = [(''ABC'', None)] \<and>
   emitted (host_tick (ScanProvider_start (ScanProvider_stop (host_tick every_frame (0, Some abc))))
      (1000, Some abc)) = [(''ABC'', None)]"
proof -
  have w: "host_tick every_frame (0, Some abc)
      = \<lparr>provider = \<lparr>scanPeriod = 1, captureImage = False, refractoryPeriod = 5000,
           frameCount = 0, lastResult = Some ''ABC'', active = True,
           refractoryTimeout = Some 5000\<rparr>,
         rafPending = 1, emitTasks = [], emitted = [(''ABC'', None)]\<rparr>"
    by (simp add: every_frame_def abc_def sched_defs timer_delay_5000)
  have h: "lastResult (provider (host_tick every_frame (0, Some abc))) = Some (result abc) \<and>
      emitTasks (host_tick every_frame (0, Some abc)) = [] \<and>
      (\<exists>d. refractoryTimeout (provider (host_tick every_frame (0, Some abc))) = Some d \<and>
           1000 < d)"
    unfolding w by (simp add: abc_def)
  have "emitted (host_tick (ScanProvider_start (ScanProvider_stop
          (host_tick every_frame (0, Some abc)))) (1000, Some abc))
      = emitted (host_tick every_frame (0, Some abc))"
    using stop_start_keep_dedup_and_counter [of "host_tick every_frame (0, Some abc)" abc 1000] h
    by blast
  then show ?thesis
    unfolding w by (simp add: abc_def)
qed

section \<open>Properties of the scanner\<close>

lemmas machine_defs = fsm_def fire_def step_def condition_def machine_object_def
  onenteractive_def onleaveactive_def enableScan_def disableScan_def

lemma fresh_eq:
  "fresh = \<lparr>backgroundScan = True, continuous = True, camera = None, current = Stopped,
      scheduler = world_new (ScanProvider_new False 1 5000), streaming = {},
      signals = [SigInactive]\<rparr>"
  by (simp add: fresh_def Scanner_init_def default_opts_def)

lemma scanning_eq:
  "scanning = \<lparr>backgroundScan = True, continuous = True, camera = Some 1, current = Active,
      scheduler = ScanProvider_start (world_new (ScanProvider_new False 1 5000)),
      streaming = {1}, signals = [SigInactive, SigActive]\<rparr>"
  by (simp add: scanning_def Scanner_start_def fresh_eq page_visible_def machine_defs Let_def)

subsection \<open>The setter of continuous\<close>

text \<open>
  Claim C9. The setter records the value and leaves the machine alone. The scan provider
  runs after it exactly when the value is true and the machine is in Active: in that one
  case the setter starts it, setting the running flag and registering an animation-frame
  callback, and in every other case it stops it, clearing the running flag and nothing
  else. So the value true in a state other than Active leaves the provider stopped,
  exactly as the value false does, and the loop body that runs next returns at once,
  without sampling and without registering a callback.
\<close>

theorem continuous_setter:
  "continuous (set_continuous c sc) = c \<and>
   current (set_continuous c sc) = current sc \<and>
   active (provider (scheduler (set_continuous c sc))) = (c \<and> current sc = Active) \<and>
   scheduler (set_continuous c sc)
     = (if c \<and> current sc = Active
        then (scheduler sc)\<lparr>provider := (provider (scheduler sc))\<lparr>active := True\<rparr>,
                            rafPending := rafPending (scheduler sc) + 1\<rparr>
        else (scheduler sc)\<lparr>provider := (provider (scheduler sc))\<lparr>active := False\<rparr>\<rparr>) \<and>
   (current sc \<noteq> Active \<longrightarrow>
      \<not> active (provider (scheduler (set_continuous True sc))) \<and>
      scheduler (set_continuous True sc) = ScanProvider_stop (scheduler sc) \<and>
      scheduler (set_continuous True sc) = scheduler (set_continuous False sc) \<and>
      scan' t a (scheduler (set_continuous True sc)) = scheduler (set_continuous True sc))"
  by (simp add: set_continuous_def ScanProvider_start_def ScanProvider_stop_def scan'_def Let_def)

theorem continuous_setter_witness:
  "current (scanning\<lparr>current := Inactive\<rparr>) \<noteq> Active \<and>
   active (provider (scheduler (scanning\<lparr>current := Inactive\<rparr>))) \<and>
   \<not> active (provider (scheduler (set_continuous True (scanning\<lparr>current := Inactive\<rparr>)))) \<and>
   active (provider (scheduler (set_continuous True scanning))) \<and>
   \<not> active (provider (scheduler (set_continuous False scanning)))"
  using continuous_setter [of True "scanning\<lparr>current := Inactive\<rparr>"]
    continuous_setter [of True scanning] continuous_setter [of False scanning]
  by (simp add: scanning_eq ScanProvider_start_def)

subsection \<open>The guard of activate\<close>

text \<open>
  Claim C4, at the failing input. The scanner is made with the default options, so its
  \<open>backgroundScan\<close> is true, and the page is hidden. \<^verbatim>\<open>start(1)\<close> takes the machine to
  Inactive, and \<^verbatim>\<open>activate\<close> from Inactive leaves it there: the guard reads
  \<^verbatim>\<open>backgroundScan\<close> from the machine object, which has no such property. Called on the
  scanner, as the arrow functions of the class are, the same guard resolves to Active.
\<close>

theorem activate_guard_misses_backgroundScan:
  "backgroundScan fresh \<and>
   fsm Start page_hidden (Some 1) fresh = Inr (fresh\<lparr>current := Inactive\<rparr>) \<and>
   fsm Activate page_hidden None (fresh\<lparr>current := Inactive\<rparr>)
     = Inr (fresh\<lparr>current := Inactive\<rparr>) \<and>
   current (after (fire scanner_object Activate page_hidden (Some 1)
      (fresh\<lparr>current := Inactive\<rparr>))) = Active"
  by (simp add: fresh_eq page_hidden_def machine_defs scanner_object_def Let_def)

subsection \<open>Starting without a camera\<close>

text \<open>
  Claim C5 as it is written fails, in two ways. On a visible page \<^verbatim>\<open>start()\<close> with no
  camera given or recorded fails with the error, but the machine is not in Stopped
  afterwards: it has gone through Started and rests in the intermediate state of
  \<^verbatim>\<open>activate\<close>. With the page hidden and background scanning off the call succeeds and
  leaves the machine in Inactive: the camera is asked for only on the way into Active.
\<close>

theorem start_without_camera_not_atomic:
  "camera fresh = None \<and> current fresh = Stopped \<and>
   Scanner_start page_visible None fresh
     = Inl (CameraNotDefined, fresh\<lparr>current := StartedActivate\<rparr>) \<and>
   camera (Scanner_init no_background) = None \<and>
   current (Scanner_init no_background) = Stopped \<and>
   Scanner_start page_hidden None (Scanner_init no_background)
     = Inr ((Scanner_init no_background)\<lparr>current := Inactive\<rparr>)"
  by (simp add: fresh_eq page_visible_def Scanner_init_def no_background_def default_opts_def
      Scanner_start_def page_hidden_def machine_defs Let_def)

text \<open>
  Claim C5, as the code has it. When the page is visible, \<^verbatim>\<open>start()\<close> in Stopped with no
  camera given and none recorded fails with the error \<^verbatim>\<open>Camera is not defined.\<close>, which
  reaches the caller. Nothing of the scanner has changed then but the state of the
  machine: no stream was opened, the scan provider was not started, no signal was
  emitted. The machine is not Active and not back in Stopped: it rests in the
  intermediate state \<^verbatim>\<open>started__activate\<close>. When the page is hidden and background
  scanning is off, \<^verbatim>\<open>start\<close> in Stopped succeeds whatever the camera and only takes the
  machine to Inactive.
\<close>

theorem start_without_camera_amended:
  "(visibility e = Visible \<and> current sc = Stopped \<and> camera sc = None \<longrightarrow>
      Scanner_start e None sc = Inl (CameraNotDefined, sc\<lparr>current := StartedActivate\<rparr>)) \<and>
   (visibility e = Hidden \<and> \<not> backgroundScan sc \<and> current sc = Stopped \<longrightarrow>
      Scanner_start e cam sc = Inr (sc\<lparr>current := Inactive\<rparr>))"
  by (simp add: Scanner_start_def machine_defs Let_def)

theorem start_without_camera_amended_witness:
  "visibility page_visible = Visible \<and> current fresh = Stopped \<and> camera fresh = None \<and>
   failure (Scanner_start page_visible None fresh) = Some CameraNotDefined \<and>
   current (after (Scanner_start page_visible None fresh)) = StartedActivate \<and>
   streaming (after (Scanner_start page_visible None fresh)) = {} \<and>
   visibility page_hidden = Hidden \<and> \<not> backgroundScan (Scanner_init no_background) \<and>
   failure (Scanner_start page_hidden (Some 1) (Scanner_init no_background)) = None"
  using start_without_camera_amended [of page_visible fresh]
    start_without_camera_amended [of page_hidden "Scanner_init no_background" "Some 1"]
  by (simp add: fresh_eq page_visible_def page_hidden_def Scanner_init_def no_background_def
      default_opts_def)

subsection \<open>The signal inactive\<close>

lemma enableScan_signals:
  "signals (after (enableScan e arg sc)) = signals sc \<and>
   current (after (enableScan e arg sc)) = current sc"
  by (simp add: enableScan_def Let_def split: option.splits)

lemma onenteractive_inactive_count:
  "count_list (signals (after (onenteractive e arg sc))) SigInactive
     = count_list (signals sc) SigInactive \<and>
   current (after (onenteractive e arg sc)) = current sc"
  using enableScan_signals [of e arg sc]
  by (cases "enableScan e arg sc") (auto simp: onenteractive_def)

lemma onleaveactive_signals:
  "signals (onleaveactive sc) = signals sc @ [SigInactive] \<and>
   current (onleaveactive sc) = current sc"
  by (simp add: onleaveactive_def disableScan_def Let_def split: option.splits)

text \<open>In Active only \<^verbatim>\<open>stop\<close> and \<^verbatim>\<open>deactivate\<close> are legal, and both run the leave hook.\<close>

lemma step_from_active:
  "current sc = Active \<Longrightarrow>
   step recv ev e arg sc =
     (if ev = Stop then Inr ((onleaveactive sc)\<lparr>current := Stopped\<rparr>)
      else if ev = Deactivate then Inr ((onleaveactive sc)\<lparr>current := Inactive\<rparr>)
      else Inl (InvalidTransition, sc))"
  by (cases ev) (simp_all add: step_def)

text \<open>Out of any other state a request runs at most the enter hook of Active.\<close>

lemma step_not_active_shape:
  assumes "current sc \<noteq> Active"
  shows "\<exists>scp. signals scp = signals sc \<and> current scp \<noteq> Active \<and>
     (step recv ev e arg sc = Inl (InvalidTransition, sc) \<or>
      step recv ev e arg sc = Inr scp \<or>
      step recv ev e arg sc
        = (case onenteractive e arg scp of
             Inl x \<Rightarrow> Inl x
           | Inr sc2 \<Rightarrow> Inr (sc2\<lparr>current := Active\<rparr>)))"
proof (cases "can ev (current sc)")
  case False
  then show ?thesis using assms by (auto simp: step_def)
next
  case True
  define scp where "scp = (if ev = Activate then sc\<lparr>current := pseudo (current sc)\<rparr> else sc)"
  define to where "to = target ev (visibility e) (recv scp)"
  have pa: "current scp \<noteq> Active"
    using assms True by (cases "current sc") (auto simp: scp_def)
  have st: "step recv ev e arg sc
      = (if to = Active
         then (case onenteractive e arg scp of
                 Inl x \<Rightarrow> Inl x
               | Inr sc2 \<Rightarrow> Inr (sc2\<lparr>current := Active\<rparr>))
         else Inr (scp\<lparr>current := to\<rparr>))"
    using assms True by (simp add: step_def scp_def to_def Let_def)
  show ?thesis
  proof (cases "to = Active")
    case act: True
    have "signals scp = signals sc" by (simp add: scp_def)
    then show ?thesis using st act pa by auto
  next
    case other: False
    have "signals (scp\<lparr>current := to\<rparr>) = signals sc"
      by (simp add: scp_def)
    moreover have "current (scp\<lparr>current := to\<rparr>) \<noteq> Active"
      using other by simp
    moreover have "step recv ev e arg sc = Inr (scp\<lparr>current := to\<rparr>)"
      using st other by simp
    ultimately show ?thesis by blast
  qed
qed

lemma step_not_active:
  assumes "current sc \<noteq> Active"
  shows "count_list (signals (after (step recv ev e arg sc))) SigInactive
     = count_list (signals sc) SigInactive"
proof -
  obtain scp where sig: "signals scp = signals sc"
    and alt: "step recv ev e arg sc = Inl (InvalidTransition, sc) \<or>
      step recv ev e arg sc = Inr scp \<or>
      step recv ev e arg sc
        = (case onenteractive e arg scp of
             Inl x \<Rightarrow> Inl x
           | Inr sc2 \<Rightarrow> Inr (sc2\<lparr>current := Active\<rparr>))"
    using step_not_active_shape [OF assms, of recv ev e arg] by blast
  have hook: "count_list (signals (after (case onenteractive e arg scp of
             Inl x \<Rightarrow> Inl x
           | Inr sc2 \<Rightarrow> Inr (sc2\<lparr>current := Active\<rparr>)))) SigInactive
      = count_list (signals scp) SigInactive"
    using onenteractive_inactive_count [of e arg scp]
    by (cases "onenteractive e arg scp") auto
  show ?thesis
    using alt sig hook by auto
qed

lemma fsm_inactive_count:
  "count_list (signals (after (fsm ev e arg sc))) SigInactive
     = count_list (signals sc) SigInactive
       + (if current sc = Active \<and> current (after (fsm ev e arg sc)) \<noteq> Active then 1 else 0)"
proof (cases "current sc = Active")
  case True
  then show ?thesis
    by (simp add: fsm_def fire_def step_from_active onleaveactive_signals)
next
  case False
  have one: "count_list (signals (after (step machine_object ev e arg sc))) SigInactive
      = count_list (signals sc) SigInactive"
    by (rule step_not_active [OF False])
  show ?thesis
  proof (cases "step machine_object ev e arg sc")
    case (Inl x)
    then show ?thesis using one False by (cases x) (simp add: fsm_def fire_def)
  next
    case (Inr sc1)
    show ?thesis
    proof (cases "current sc1 = Started")
      case started: True
      have na: "current sc1 \<noteq> Active" using started by simp
      have two: "count_list (signals (after (step machine_object Activate e arg sc1))) SigInactive
          = count_list (signals sc1) SigInactive"
        by (rule step_not_active [OF na])
      show ?thesis
        using one two Inr started False by (simp add: fsm_def fire_def)
    next
      case other: False
      then show ?thesis using one Inr False by (simp add: fsm_def fire_def)
    qed
  qed
qed

lemma run_requests_inactive_count:
  "count_list (signals (run_requests sc rs)) SigInactive
     = count_list (signals sc) SigInactive + leaves_active sc rs"
proof (induction rs arbitrary: sc)
  case Nil
  then show ?case by simp
next
  case (Cons r rs)
  obtain ev e arg where r: "r = (ev, e, arg)" by (cases r) auto
  show ?case
    using Cons.IH [of "after (fsm ev e arg sc)"] fsm_inactive_count [of ev e arg sc]
    by (simp add: r)
qed

lemma start_visible_scanning: "fsm Start page_visible (Some 1) fresh = Inr scanning"
  by (simp add: scanning_eq fresh_eq page_visible_def machine_defs Let_def)

text \<open>
  Claim C7, as the code has it. The constructor emits \<^verbatim>\<open>'inactive'\<close> once, and after
  that the signal is emitted once for every transition that takes the machine out of
  Active, wherever it leads, and for no other: after any sequence of transition requests
  on a new scanner, the number of \<^verbatim>\<open>'inactive'\<close> signals is one plus the number of
  requests that left Active.
\<close>

theorem inactive_signal_amended:
  assumes "Scanner_new opt = Inr sc"
  shows "count_list (signals (run_requests sc rs)) SigInactive = 1 + leaves_active sc rs"
proof -
  have "sc = Scanner_init opt"
    using assms by (simp add: Scanner_new_def split: option.splits)
  then have "count_list (signals sc) SigInactive = 1"
    by (simp add: Scanner_init_def)
  then show ?thesis
    using run_requests_inactive_count [of sc rs] by simp
qed

theorem inactive_signal_amended_witness:
  "Scanner_new default_opts = Inr fresh \<and>
   leaves_active fresh [(Start, page_visible, Some 1), (Stop, page_visible, None)] = 1 \<and>
   count_list (signals (run_requests fresh
      [(Start, page_visible, Some 1), (Stop, page_visible, None)])) SigInactive = 2"
proof -
  have n: "Scanner_new default_opts = Inr fresh"
    by (simp add: Scanner_new_def configureVideo_def fresh_def default_opts_def)
  have t: "current (after (fsm Stop page_visible None scanning)) = Stopped"
    by (simp add: scanning_eq fsm_def fire_def step_from_active)
  have l: "leaves_active fresh [(Start, page_visible, Some 1), (Stop, page_visible, None)] = 1"
    using start_visible_scanning t by (simp add: scanning_eq)
  show ?thesis
    using n l inactive_signal_amended [OF n,
        of "[(Start, page_visible, Some 1), (Stop, page_visible, None)]"]
    by simp
qed

text \<open>
  Claim C7 as it is written fails both ways. A scanner that is started on a visible page
  and stopped never enters Inactive, and has emitted \<^verbatim>\<open>'inactive'\<close> twice, the second
  time on the way from Active to Stopped. A scanner with background scanning off that is
  started on a hidden page enters Inactive, and has emitted only the signal of its
  constructor.
\<close>

theorem inactive_signal_mismatch:
  "enters_inactive fresh [(Start, page_visible, Some 1), (Stop, page_visible, None)] = 0 \<and>
   signals (run_requests fresh [(Start, page_visible, Some 1), (Stop, page_visible, None)])
     = [SigInactive, SigActive, SigInactive] \<and>
   enters_inactive (Scanner_init no_background) [(Start, page_hidden, Some 1)] = 1 \<and>
   signals (run_requests (Scanner_init no_background) [(Start, page_hidden, Some 1)])
     = [SigInactive]"
proof -
  have t: "after (fsm Stop page_visible None scanning)
      = (onleaveactive scanning)\<lparr>current := Stopped\<rparr>"
    by (simp add: scanning_eq fsm_def fire_def step_from_active)
  have f: "failure (fsm Stop page_visible None scanning) = None"
    by (simp add: scanning_eq fsm_def fire_def step_from_active)
  have h: "fsm Start page_hidden (Some 1) (Scanner_init no_background)
      = Inr ((Scanner_init no_background)\<lparr>current := Inactive\<rparr>)"
    by (simp add: Scanner_init_def no_background_def default_opts_def page_hidden_def
        machine_defs Let_def)
  show ?thesis
    using start_visible_scanning t f h
    by (simp add: onleaveactive_signals scanning_eq Scanner_init_def)
qed

subsection \<open>Restarting a busy scanner\<close>

lemma fsm_stop_busy:
  "current sc = Started \<or> current sc = Active \<or> current sc = Inactive \<Longrightarrow>
   fsm Stop e None sc
     = Inr ((if current sc = Active then onleaveactive sc else sc)\<lparr>current := Stopped\<rparr>)"
  by (auto simp: fsm_def fire_def step_def)

lemma fsm_start_stopped:
  "current sc = Stopped \<Longrightarrow>
   fsm Start e cam sc = step machine_object Activate e cam (sc\<lparr>current := Started\<rparr>)"
  by (simp add: fsm_def fire_def step_def)

text \<open>The chained \<^verbatim>\<open>activate\<close> ends in Active or Inactive, or fails in its intermediate
  state with an error of \<^verbatim>\<open>_enableScan\<close>.\<close>

lemma activate_from_started:
  assumes "current sc = Started"
  shows "(failure (step recv Activate e cam sc) = None \<and>
          (current (after (step recv Activate e cam sc)) = Active \<or>
           current (after (step recv Activate e cam sc)) = Inactive)) \<or>
         ((failure (step recv Activate e cam sc) = Some CameraNotDefined \<or>
           failure (step recv Activate e cam sc) = Some AcquisitionFailed) \<and>
          current (after (step recv Activate e cam sc)) = StartedActivate)"
  using assms
  by (auto simp: step_def condition_def onenteractive_def enableScan_def Let_def
      split: option.splits)

lemma fsm_start_visible:
  assumes "current sc = Stopped" "visibility e = Visible" "acquires e c"
  shows "fsm Start e (Some c) sc
     = Inr (sc\<lparr>camera := Some c, streaming := insert c (streaming sc),
               scheduler := (if continuous sc then ScanProvider_start (scheduler sc)
                             else scheduler sc),
               signals := signals sc @ [SigActive], current := Active\<rparr>)"
  using assms by (simp add: machine_defs Let_def)

lemma Scanner_start_wedged:
  "current sc = StartedActivate \<or> current sc = InactiveActivate \<Longrightarrow>
   Scanner_start e cam sc = Inl (InvalidTransition, sc) \<and> Scanner_stop e sc = Inr sc"
  by (auto simp: Scanner_start_def Scanner_stop_def fsm_def fire_def step_def)

text \<open>
  Claim C8 as it is written fails. From Active, \<^verbatim>\<open>start(2)\<close> ends in an error when the
  new camera yields no stream, and leaves the machine in the intermediate state of
  \<^verbatim>\<open>activate\<close>; there a further \<^verbatim>\<open>start(2)\<close>, with the camera now working, fails for an
  illegal transition, because its \<^verbatim>\<open>stop\<close> is not legal. And from Active with the page
  hidden and background scanning off, \<^verbatim>\<open>start(2)\<close> ends, without an error, in Inactive,
  with camera 1 still the recorded one.
\<close>

theorem restart_can_fail:
  "current scanning = Active \<and>
   failure (Scanner_start camera_fails (Some 2) scanning) = Some AcquisitionFailed \<and>
   current (after (Scanner_start camera_fails (Some 2) scanning)) = StartedActivate \<and>
   failure (Scanner_start page_visible (Some 2)
      (after (Scanner_start camera_fails (Some 2) scanning))) = Some InvalidTransition \<and>
   current (scanning\<lparr>backgroundScan := False\<rparr>) = Active \<and>
   failure (Scanner_start page_hidden (Some 2) (scanning\<lparr>backgroundScan := False\<rparr>)) = None \<and>
   current (after (Scanner_start page_hidden (Some 2) (scanning\<lparr>backgroundScan := False\<rparr>)))
     = Inactive \<and>
   camera (after (Scanner_start page_hidden (Some 2) (scanning\<lparr>backgroundScan := False\<rparr>)))
     = Some 1"
proof -
  have a: "failure (Scanner_start camera_fails (Some 2) scanning) = Some AcquisitionFailed \<and>
      current (after (Scanner_start camera_fails (Some 2) scanning)) = StartedActivate"
    by (simp add: scanning_eq Scanner_start_def camera_fails_def machine_defs Let_def)
  have b: "failure (Scanner_start page_visible (Some 2)
      (after (Scanner_start camera_fails (Some 2) scanning))) = Some InvalidTransition"
    using a Scanner_start_wedged [of "after (Scanner_start camera_fails (Some 2) scanning)"
        page_visible "Some 2"] by simp
  have c: "current (scanning\<lparr>backgroundScan := False\<rparr>) = Active \<and>
      failure (Scanner_start page_hidden (Some 2) (scanning\<lparr>backgroundScan := False\<rparr>)) = None \<and>
      current (after (Scanner_start page_hidden (Some 2) (scanning\<lparr>backgroundScan := False\<rparr>)))
        = Inactive \<and>
      camera (after (Scanner_start page_hidden (Some 2) (scanning\<lparr>backgroundScan := False\<rparr>)))
        = Some 1"
    by (simp add: scanning_eq Scanner_start_def page_hidden_def machine_defs Let_def)
  have d: "current scanning = Active" by (simp add: scanning_eq)
  show ?thesis using a b c d by simp
qed

text \<open>
  Claim C8, as the code has it. In each of the four states of the configuration,
  \<^verbatim>\<open>start(camera)\<close> requests \<^verbatim>\<open>start\<close> directly in Stopped, and in Started, Active and
  Inactive requests \<^verbatim>\<open>stop\<close>, which then succeeds and ends in Stopped, and after it
  \<^verbatim>\<open>start\<close>. The \<^verbatim>\<open>stop\<close> out of Active runs the leave hook: the scan provider is stopped
  and the recorded camera's stream closed. From these four states the call does not fail
  for an illegal transition. It either succeeds, ending in Active or Inactive, or fails
  with an error of the fresh start itself (no camera, no stream), which reaches the caller
  and leaves the machine in the intermediate state \<^verbatim>\<open>started__activate\<close>. When the page
  is visible and the given camera yields a stream, the call succeeds and ends in Active,
  with that camera recorded and its stream open. In an intermediate state, where a failed
  start has left the machine, \<^verbatim>\<open>start(camera)\<close> fails for an illegal transition and
  changes nothing.
\<close>

theorem restart_on_busy_amended:
  "(current sc = Stopped \<or> current sc = Started \<or> current sc = Active \<or> current sc = Inactive
    \<longrightarrow>
      Scanner_start e cam sc
        = (if current sc = Stopped then fsm Start e cam sc
           else fsm Start e cam (after (fsm Stop e None sc))) \<and>
      (current sc \<noteq> Stopped \<longrightarrow>
         fsm Stop e None sc
           = Inr ((if current sc = Active then onleaveactive sc else sc)\<lparr>current := Stopped\<rparr>)) \<and>
      failure (Scanner_start e cam sc) \<noteq> Some InvalidTransition \<and>
      ((failure (Scanner_start e cam sc) = None \<and>
        (current (after (Scanner_start e cam sc)) = Active \<or>
         current (after (Scanner_start e cam sc)) = Inactive)) \<or>
       ((failure (Scanner_start e cam sc) = Some CameraNotDefined \<or>
         failure (Scanner_start e cam sc) = Some AcquisitionFailed) \<and>
        current (after (Scanner_start e cam sc)) = StartedActivate)) \<and>
      (visibility e = Visible \<and> acquires e c \<longrightarrow>
         failure (Scanner_start e (Some c) sc) = None \<and>
         current (after (Scanner_start e (Some c) sc)) = Active \<and>
         camera (after (Scanner_start e (Some c) sc)) = Some c \<and>
         c \<in> streaming (after (Scanner_start e (Some c) sc)))) \<and>
   \<not> active (provider (scheduler (onleaveactive sc))) \<and>
   (case camera sc of None \<Rightarrow> True | Some c0 \<Rightarrow> c0 \<notin> streaming (onleaveactive sc)) \<and>
   (current sc = StartedActivate \<or> current sc = InactiveActivate \<longrightarrow>
      Scanner_start e cam sc = Inl (InvalidTransition, sc))"
proof -
  let ?st = "(if current sc = Active then onleaveactive sc else sc)\<lparr>current := Stopped\<rparr>"
  have st: "current ?st = Stopped" by simp
  have halt: "\<not> active (provider (scheduler (onleaveactive sc)))"
    by (simp add: onleaveactive_def disableScan_def ScanProvider_stop_def Let_def
        split: option.splits)
  have rel: "(case camera sc of None \<Rightarrow> True | Some c0 \<Rightarrow> c0 \<notin> streaming (onleaveactive sc))"
    by (simp add: onleaveactive_def disableScan_def Let_def split: option.splits)
  have wedged: "Scanner_start e cam sc = Inl (InvalidTransition, sc)"
    if "current sc = StartedActivate \<or> current sc = InactiveActivate"
    using Scanner_start_wedged [OF that] by simp
  have four: "Scanner_start e cam sc
        = (if current sc = Stopped then fsm Start e cam sc
           else fsm Start e cam (after (fsm Stop e None sc))) \<and>
      (current sc \<noteq> Stopped \<longrightarrow> fsm Stop e None sc = Inr ?st) \<and>
      failure (Scanner_start e cam sc) \<noteq> Some InvalidTransition \<and>
      ((failure (Scanner_start e cam sc) = None \<and>
        (current (after (Scanner_start e cam sc)) = Active \<or>
         current (after (Scanner_start e cam sc)) = Inactive)) \<or>
       ((failure (Scanner_start e cam sc) = Some CameraNotDefined \<or>
         failure (Scanner_start e cam sc) = Some AcquisitionFailed) \<and>
        current (after (Scanner_start e cam sc)) = StartedActivate)) \<and>
      (visibility e = Visible \<and> acquires e c \<longrightarrow>
         failure (Scanner_start e (Some c) sc) = None \<and>
         current (after (Scanner_start e (Some c) sc)) = Active \<and>
         camera (after (Scanner_start e (Some c) sc)) = Some c \<and>
         c \<in> streaming (after (Scanner_start e (Some c) sc)))"
    if legal: "current sc = Stopped \<or> current sc = Started \<or> current sc = Active \<or>
      current sc = Inactive"
  proof -
    have stop: "fsm Stop e None sc = Inr ?st" if "current sc \<noteq> Stopped"
      using that legal fsm_stop_busy [of sc e] by blast
    define s0 where "s0 = (if current sc = Stopped then sc else ?st)"
    have s0: "current s0 = Stopped" by (simp add: s0_def)
    have shape: "Scanner_start e cam sc
       = (if current sc = Stopped then fsm Start e cam sc
          else fsm Start e cam (after (fsm Stop e None sc)))" for cam
      using stop by (simp add: Scanner_start_def)
    have eq: "Scanner_start e cam sc = fsm Start e cam s0" for cam
      using stop by (simp add: shape s0_def)
    have chain: "fsm Start e cam s0
        = step machine_object Activate e cam (s0\<lparr>current := Started\<rparr>)"
      by (rule fsm_start_stopped [OF s0])
    have ends: "(failure (Scanner_start e cam sc) = None \<and>
        (current (after (Scanner_start e cam sc)) = Active \<or>
         current (after (Scanner_start e cam sc)) = Inactive)) \<or>
       ((failure (Scanner_start e cam sc) = Some CameraNotDefined \<or>
         failure (Scanner_start e cam sc) = Some AcquisitionFailed) \<and>
        current (after (Scanner_start e cam sc)) = StartedActivate)"
      using activate_from_started [of "s0\<lparr>current := Started\<rparr>" machine_object e cam]
      by (simp add: eq chain)
    then have noinv: "failure (Scanner_start e cam sc) \<noteq> Some InvalidTransition"
      by auto
    have good: "failure (Scanner_start e (Some c) sc) = None \<and>
        current (after (Scanner_start e (Some c) sc)) = Active \<and>
        camera (after (Scanner_start e (Some c) sc)) = Some c \<and>
        c \<in> streaming (after (Scanner_start e (Some c) sc))"
      if v: "visibility e = Visible" and a: "acquires e c"
      using fsm_start_visible [OF s0 v a] by (simp add: eq)
    show ?thesis
      using shape [of cam] stop noinv ends good by blast
  qed
  show ?thesis
    using four halt rel wedged by blast
qed

theorem restart_on_busy_amended_witness:
  "visibility page_visible = Visible \<and> acquires page_visible 2 \<and> current scanning = Active \<and>
   failure (Scanner_start page_visible (Some 2) scanning) = None \<and>
   current (after (Scanner_start page_visible (Some 2) scanning)) = Active \<and>
   camera (after (Scanner_start page_visible (Some 2) scanning)) = Some 2 \<and>
   current (scanning\<lparr>current := StartedActivate\<rparr>) = StartedActivate \<and>
   failure (Scanner_start page_visible (Some 2) (scanning\<lparr>current := StartedActivate\<rparr>))
     = Some InvalidTransition"
proof -
  have v: "visibility page_visible = Visible \<and> acquires page_visible 2"
    by (simp add: page_visible_def)
  have a: "current scanning = Active" by (simp add: scanning_eq)
  have "failure (Scanner_start page_visible (Some 2) scanning) = None \<and>
      current (after (Scanner_start page_visible (Some 2) scanning)) = Active \<and>
      camera (after (Scanner_start page_visible (Some 2) scanning)) = Some 2"
    using restart_on_busy_amended [of scanning page_visible "Some 2" 2] v a by blast
  moreover have "failure (Scanner_start page_visible (Some 2)
      (scanning\<lparr>current := StartedActivate\<rparr>)) = Some InvalidTransition"
    using restart_on_busy_amended [of "scanning\<lparr>current := StartedActivate\<rparr>" page_visible
        "Some 2" 2] by simp
  ultimately show ?thesis
    using v a by simp
qed

end
